theory Spec2Isabelle
  imports Complex_Main
begin

section \<open>The sensing-and-alerting engine of the airflow demo\<close>

text \<open>
  The engine lives inside the React component \<open>App\<close> of \<open>src/App.jsx\<close>: a
  500 ms interval callback (the simulation tick), an effect that runs whenever the
  sensor array changes (alert detection), the derived metrics computed at each render,
  and the two actions \<open>induce\<close> and \<open>clearAll\<close>.

  Conventions of the embedding.
  \<^item> JavaScript numbers are IEEE doubles. Sensor values, widths, intensities and
    durations are modelled as \<open>real\<close> (rounding is not modelled), timestamps
    (\<open>Date.now()\<close>, integral milliseconds) as \<open>int\<close>, counters as \<open>nat\<close>.
    \<open>NaN\<close> and the infinities do not occur on the arrays the component builds,
    except for \<open>Math.max()\<close> of no argument, which is modelled by \<open>None\<close>.
  \<^item> \<open>Date.now()\<close> and \<open>Math.random()\<close> are inputs: every operation takes the
    current time \<open>now\<close>, and the draws of \<open>Math.random()\<close> as arguments. A draw
    lies in \<open>[0, 1)\<close>.
  \<^item> React state (\<open>useState\<close>) and refs (\<open>useRef\<close>) are fields of one record
    \<open>engine\<close>; a state update is a record update, applied at once. Presentation
    state (\<open>mode\<close>, \<open>acked\<close>, \<open>clock\<close>, \<open>hov\<close>, \<open>cxStep\<close>, \<open>roiKW\<close>,
    \<open>roiRate\<close>, \<open>hint\<close>, \<open>intro\<close>) is not part of the engine.
  \<^item> Field names carry a suffix (\<open>_b\<close> for a breach, \<open>_a\<close> for an alert), since
    \<open>id\<close>, \<open>int\<close> and \<open>t\<close> are taken in HOL.
  \<^item> \<open>a[i]\<close> on the arrays \<open>baselineRef.current\<close> and \<open>baseDpRef.current\<close> is
    written \<open>a ! i\<close>; the component builds them with the lengths of \<open>temps\<close> and
    \<open>dpArr\<close> and never resizes any of them, so every read is in range.
\<close>

subsection \<open>Constants\<close>

definition N_SENSORS :: nat where
  "N_SENSORS = 120"

definition N_RACKS :: nat where
  "N_RACKS = 8"

definition T_BASE :: real where
  "T_BASE = 19.2"

subsection \<open>Data\<close>

text \<open>
  A breach, as \<open>induce\<close> builds it:
  \<^verbatim>\<open>{ id, pos, w, int, dur, t, label }\<close>.
\<close>

record breach =
  id_b :: nat
  pos_b :: int
  w_b :: real
  int_b :: real
  dur_b :: real
  t_b :: int
  label_b :: string

datatype level = WARNING | CRITICAL | BREACH | CLEAR

text \<open>
  The display fields of an alert (\<open>time\<close>, \<open>what\<close>, \<open>where\<close>, \<open>loc\<close>,
  \<open>action\<close>) are strings formatted from the values below and read by no engine
  logic; \<open>origin\<close> keeps the values they are formatted from: the peak excess and
  its index for a thermal alert, the position and label for an induced breach.
\<close>

datatype origin = Thermal real int | Induced int string | AllZones

record alert =
  id_a :: nat
  ts_a :: int
  lvl_a :: level
  origin_a :: origin

record engine =
  temps :: "real list"
  dpArr :: "real list"
  rackPwr :: "real list"
  breaches :: "breach list"
  alerts :: "alert list"
  trend :: real
  baseline :: "real list"
  baseDp :: "real list"
  breachId :: nat
  alertId :: nat

text \<open>The draws of \<open>Math.random()\<close> of one tick: one per sensor, per pressure zone
  and per rack, and one for the trend.\<close>

record tick_random =
  rnd_temp :: "nat \<Rightarrow> real"
  rnd_dp :: "nat \<Rightarrow> real"
  rnd_rack :: "nat \<Rightarrow> real"
  rnd_trend :: real

subsection \<open>The simulation tick\<close>

text \<open>
  \<^verbatim>\<open>const live = breachesRef.current.filter(b => now - b.t < b.dur);\<close>
\<close>

definition live_breaches :: "int \<Rightarrow> breach list \<Rightarrow> breach list" where
  "live_breaches now bs = filter (\<lambda>b. real_of_int (now - t_b b) < dur_b b) bs"

text \<open>
  \<^verbatim>\<open>
  let target = baselineRef.current[i] + (Math.random() - 0.5) * 0.2;
  for (const b of live) {
    const dist = Math.abs(i - b.pos);
    if (dist < b.w * 2) target += b.int * Math.exp(-0.5 * (dist / (b.w * 0.5)) ** 2);
  }
  return t * 0.68 + target * 0.32;
  \<close>
\<close>

definition temp_step :: "breach \<Rightarrow> nat \<Rightarrow> real \<Rightarrow> real" where
  "temp_step b i target =
     (let dist = \<bar>real i - real_of_int (pos_b b)\<bar>
      in if dist < w_b b * 2
         then target + int_b b * exp (- 0.5 * (dist / (w_b b * 0.5))\<^sup>2)
         else target)"

definition temp_target :: "real list \<Rightarrow> breach list \<Rightarrow> real \<Rightarrow> nat \<Rightarrow> real" where
  "temp_target base live r i =
     fold (\<lambda>b target. temp_step b i target) live (base ! i + (r - 0.5) * 0.2)"

definition next_temps :: "real list \<Rightarrow> breach list \<Rightarrow> (nat \<Rightarrow> real) \<Rightarrow> real list \<Rightarrow> real list" where
  "next_temps base live rnd prev =
     map (\<lambda>(i, t). t * 0.68 + temp_target base live (rnd i) i * 0.32) (enumerate 0 prev)"

text \<open>
  \<^verbatim>\<open>
  let target = baseDpRef.current[i] + (Math.random() - 0.5) * 0.7;
  for (const b of live) {
    const zone = (i + 0.5) * (N_SENSORS / 4);
    const dist = Math.abs(b.pos - zone);
    target -= Math.max(0, 1 - dist / (N_SENSORS / 3)) * (b.int / 14) * 9;
  }
  return dp * 0.58 + target * 0.42;
  \<close>
\<close>

definition dp_step :: "breach \<Rightarrow> nat \<Rightarrow> real \<Rightarrow> real" where
  "dp_step b i target =
     (let zone = (real i + 0.5) * (real N_SENSORS / 4);
          dist = \<bar>real_of_int (pos_b b) - zone\<bar>
      in target - max 0 (1 - dist / (real N_SENSORS / 3)) * (int_b b / 14) * 9)"

definition dp_target :: "real list \<Rightarrow> breach list \<Rightarrow> real \<Rightarrow> nat \<Rightarrow> real" where
  "dp_target base live r i =
     fold (\<lambda>b target. dp_step b i target) live (base ! i + (r - 0.5) * 0.7)"

definition next_dpArr :: "real list \<Rightarrow> breach list \<Rightarrow> (nat \<Rightarrow> real) \<Rightarrow> real list \<Rightarrow> real list" where
  "next_dpArr base live rnd prev =
     map (\<lambda>(i, dp). dp * 0.58 + dp_target base live (rnd i) i * 0.42) (enumerate 0 prev)"

text \<open>
  \<^verbatim>\<open>setRackPwr(prev => prev.map(v => v * 0.97 + (65 + Math.random() * 28) * 0.03));\<close>
\<close>

definition next_rackPwr :: "(nat \<Rightarrow> real) \<Rightarrow> real list \<Rightarrow> real list" where
  "next_rackPwr rnd prev =
     map (\<lambda>(i, v). v * 0.97 + (65 + rnd i * 28) * 0.03) (enumerate 0 prev)"

text \<open>
  \<^verbatim>\<open>
  const maxLiveBreach = live.reduce((mx, b) => Math.max(mx, b.int), 0);
  setTrend(maxLiveBreach > 2 ? 0.65 + Math.random() * 0.35 : 0);
  \<close>
\<close>

definition next_trend :: "breach list \<Rightarrow> real \<Rightarrow> real" where
  "next_trend live r =
     (let maxLiveBreach = fold (\<lambda>b mx. max mx (int_b b)) live 0
      in if maxLiveBreach > 2 then 0.65 + r * 0.35 else 0)"

text \<open>The body of the interval callback. The ref \<open>breachesRef.current\<close> holds the
  \<open>breaches\<close> of the last render.\<close>

definition tick :: "int \<Rightarrow> tick_random \<Rightarrow> engine \<Rightarrow> engine" where
  "tick now rnd s =
     (let live = live_breaches now (breaches s)
      in s\<lparr>breaches := live,
            temps := next_temps (baseline s) live (rnd_temp rnd) (temps s),
            dpArr := next_dpArr (baseDp s) live (rnd_dp rnd) (dpArr s),
            rackPwr := next_rackPwr (rnd_rack rnd) (rackPwr s),
            trend := next_trend live (rnd_trend rnd)\<rparr>)"

subsection \<open>Alert detection\<close>

text \<open>\<^verbatim>\<open>temps.map((t, i) => t - baselineRef.current[i])\<close>\<close>

definition deltas :: "engine \<Rightarrow> real list" where
  "deltas s = map (\<lambda>(i, t). t - baseline s ! i) (enumerate 0 (temps s))"

text \<open>\<open>Math.max(...xs)\<close>; of no argument it is \<open>-Infinity\<close>, here \<open>None\<close>.\<close>

fun js_max :: "real list \<Rightarrow> real option" where
  "js_max [] = None"
| "js_max (x # xs) = (case js_max xs of None \<Rightarrow> Some x | Some m \<Rightarrow> Some (max x m))"

text \<open>\<open>xs.indexOf(v)\<close>: the first index holding \<open>v\<close>, or \<open>-1\<close>.\<close>

fun indexOf :: "real list \<Rightarrow> real \<Rightarrow> int" where
  "indexOf [] v = - 1"
| "indexOf (x # xs) v =
     (if x = v then 0 else (let k = indexOf xs v in if k < 0 then - 1 else k + 1))"

text \<open>\<^verbatim>\<open>[newAlert, ...prev.slice(0, 29)]\<close>\<close>

definition push_alert :: "alert \<Rightarrow> alert list \<Rightarrow> alert list" where
  "push_alert a prev = a # take 29 prev"

text \<open>
  \<^verbatim>\<open>
  const deltas = temps.map((t, i) => t - baselineRef.current[i]);
  const maxDelta = Math.max(...deltas);
  const peakIdx  = deltas.indexOf(maxDelta);
  if (maxDelta > 4.5) {
    alertIdRef.current++;
    setAlerts(prev => {
      if (prev[0] && Date.now() - prev[0].ts < 9000) return prev;
      return [{ id: alertIdRef.current, ts: Date.now(), ...,
                lvl: maxDelta > 7 ? "CRITICAL" : "WARNING", ... }, ...prev.slice(0, 29)];
    });
  }
  \<close>
\<close>

definition thermal_alert :: "nat \<Rightarrow> int \<Rightarrow> real \<Rightarrow> int \<Rightarrow> alert" where
  "thermal_alert n now maxDelta peakIdx =
     \<lparr>id_a = n, ts_a = now,
      lvl_a = (if maxDelta > 7 then CRITICAL else WARNING),
      origin_a = Thermal maxDelta peakIdx\<rparr>"

definition suppressed :: "int \<Rightarrow> alert list \<Rightarrow> bool" where
  "suppressed now prev = (case prev of [] \<Rightarrow> False | p0 # _ \<Rightarrow> now - ts_a p0 < 9000)"

definition alertDetection :: "int \<Rightarrow> engine \<Rightarrow> engine" where
  "alertDetection now s =
     (case js_max (deltas s) of
        None \<Rightarrow> s
      | Some maxDelta \<Rightarrow>
          (let peakIdx = indexOf (deltas s) maxDelta
           in if maxDelta > 4.5
              then (let s1 = s\<lparr>alertId := alertId s + 1\<rparr>
                    in if suppressed now (alerts s1) then s1
                       else s1\<lparr>alerts :=
                              push_alert (thermal_alert (alertId s1) now maxDelta peakIdx)
                                (alerts s1)\<rparr>)
              else s))"

subsection \<open>Derived metrics\<close>

text \<open>
  \<^verbatim>\<open>
  const maxDelta = Math.max(0, ...deltas);
  const thermalScore = Math.min(1, Math.max(0, (maxDelta - 1) / 10));
  const dpDrop = dpArr.reduce((acc, dp, i) => acc + (baseDpRef.current[i] - dp), 0) / 4;
  const dpScore = Math.min(1, Math.max(0, dpDrop / 16));
  const rackMean = temps.slice(10, 110).reduce((a, b) => a + b, 0) / 100;
  const rackScore = Math.min(1, Math.max(0, (rackMean - T_BASE - 1) / 6));
  const bari = Math.min(1, 0.5 * thermalScore + 0.3 * dpScore + 0.2 * rackScore);
  const bariLabel = bari < 0.3 ? "ALL CLEAR" : bari < 0.55 ? "ELEVATED"
                  : bari < 0.8 ? "HIGH RISK" : "CRITICAL";
  \<close>
\<close>

definition maxDelta :: "engine \<Rightarrow> real" where
  "maxDelta s = fold max (deltas s) 0"

definition thermalScore_of :: "real \<Rightarrow> real" where
  "thermalScore_of md = min 1 (max 0 ((md - 1) / 10))"

definition thermalScore :: "engine \<Rightarrow> real" where
  "thermalScore s = thermalScore_of (maxDelta s)"

definition dpDrop :: "engine \<Rightarrow> real" where
  "dpDrop s = fold (\<lambda>(i, dp) acc. acc + (baseDp s ! i - dp)) (enumerate 0 (dpArr s)) 0 / 4"

definition dpScore :: "engine \<Rightarrow> real" where
  "dpScore s = min 1 (max 0 (dpDrop s / 16))"

definition rackMean :: "engine \<Rightarrow> real" where
  "rackMean s = fold (\<lambda>b a. a + b) (take (110 - 10) (drop 10 (temps s))) 0 / 100"

definition rackScore :: "engine \<Rightarrow> real" where
  "rackScore s = min 1 (max 0 ((rackMean s - T_BASE - 1) / 6))"

definition bari_of :: "real \<Rightarrow> real \<Rightarrow> real \<Rightarrow> real" where
  "bari_of th dp rk = min 1 (0.5 * th + 0.3 * dp + 0.2 * rk)"

definition bari :: "engine \<Rightarrow> real" where
  "bari s = bari_of (thermalScore s) (dpScore s) (rackScore s)"

definition bariLabel :: "engine \<Rightarrow> string" where
  "bariLabel s =
     (if bari s < 0.3 then ''ALL CLEAR''
      else if bari s < 0.55 then ''ELEVATED''
      else if bari s < 0.8 then ''HIGH RISK''
      else ''CRITICAL'')"

subsection \<open>Actions\<close>

text \<open>
  \<^verbatim>\<open>
  const induce = useCallback((pos, label) => {
    const id = ++breachIdRef.current;
    setBreaches(prev => [...prev, {
      id, pos, w: 4 + Math.random() * 3, int: 9 + Math.random() * 5,
      dur: 55000 + Math.random() * 25000, t: Date.now(), label,
    }]);
    alertIdRef.current++;
    setAlerts(prev => [{ id: alertIdRef.current, ts: Date.now(), ...,
                         lvl: "BREACH", ... }, ...prev.slice(0, 29)]);
  }, []);
  \<close>
  The function has no check of \<open>pos\<close> and no \<open>throw\<close>: it has no error result.
\<close>

definition new_breach :: "nat \<Rightarrow> int \<Rightarrow> string \<Rightarrow> int \<Rightarrow> real \<times> real \<times> real \<Rightarrow> breach" where
  "new_breach n pos label now r =
     (case r of (r1, r2, r3) \<Rightarrow>
        \<lparr>id_b = n, pos_b = pos, w_b = 4 + r1 * 3, int_b = 9 + r2 * 5,
         dur_b = 55000 + r3 * 25000, t_b = now, label_b = label\<rparr>)"

definition breach_alert :: "nat \<Rightarrow> int \<Rightarrow> int \<Rightarrow> string \<Rightarrow> alert" where
  "breach_alert n now pos label =
     \<lparr>id_a = n, ts_a = now, lvl_a = BREACH, origin_a = Induced pos label\<rparr>"

definition induce :: "int \<Rightarrow> string \<Rightarrow> int \<Rightarrow> real \<times> real \<times> real \<Rightarrow> engine \<Rightarrow> engine" where
  "induce pos label now r s =
     (let n = breachId s + 1;
          s1 = s\<lparr>breachId := n,
                 breaches := breaches s @ [new_breach n pos label now r]\<rparr>;
          s2 = s1\<lparr>alertId := alertId s1 + 1\<rparr>
      in s2\<lparr>alerts := push_alert (breach_alert (alertId s2) now pos label) (alerts s2)\<rparr>)"

text \<open>
  \<^verbatim>\<open>
  const clearAll = useCallback(() => {
    setBreaches([]);
    setHint(null);
    alertIdRef.current++;
    setAlerts(prev => [{ id: alertIdRef.current, ts: Date.now(), ...,
                         lvl: "CLEAR", ... }, ...prev.slice(0, 29)]);
  }, []);
  \<close>
\<close>

definition clear_alert :: "nat \<Rightarrow> int \<Rightarrow> alert" where
  "clear_alert n now = \<lparr>id_a = n, ts_a = now, lvl_a = CLEAR, origin_a = AllZones\<rparr>"

definition clearAll :: "int \<Rightarrow> engine \<Rightarrow> engine" where
  "clearAll now s =
     (let s1 = s\<lparr>breaches := [], alertId := alertId s + 1\<rparr>
      in s1\<lparr>alerts := push_alert (clear_alert (alertId s1) now) (alerts s1)\<rparr>)"

subsection \<open>Reachable states\<close>

text \<open>
  The component starts with \<^verbatim>\<open>useState([])\<close> for \<open>breaches\<close> and \<open>alerts\<close> and
  \<^verbatim>\<open>useRef(0)\<close> for both counters; the arrays are random. From there the state
  changes by a tick, by the alert detection effect, and by the two actions.
\<close>

inductive reachable :: "engine \<Rightarrow> bool" where
  initial:
    "breaches s = [] \<Longrightarrow> alerts s = [] \<Longrightarrow> breachId s = 0 \<Longrightarrow> alertId s = 0 \<Longrightarrow> reachable s"
| by_tick: "reachable s \<Longrightarrow> reachable (tick now rnd s)"
| by_detection: "reachable s \<Longrightarrow> reachable (alertDetection now s)"
| by_induce: "reachable s \<Longrightarrow> reachable (induce pos label now r s)"
| by_clearAll: "reachable s \<Longrightarrow> reachable (clearAll now s)"

subsection \<open>Notions used in the statements and proofs\<close>

text \<open>The plume of breach \<open>b\<close> at sensor \<open>i\<close>, and the cutoff of twice its width.\<close>

definition plume :: "nat \<Rightarrow> breach \<Rightarrow> real" where
  "plume i b =
     int_b b * exp (- 0.5 * ((real i - real_of_int (pos_b b)) / (0.5 * w_b b))\<^sup>2)"

definition in_reach :: "nat \<Rightarrow> breach \<Rightarrow> bool" where
  "in_reach i b = (\<bar>real i - real_of_int (pos_b b)\<bar> < 2 * w_b b)"

text \<open>The most recent alert exists and is less than 9000 ms old.\<close>

definition recent_head :: "int \<Rightarrow> alert list \<Rightarrow> bool" where
  "recent_head now prev = (prev \<noteq> [] \<and> now - ts_a (hd prev) < 9000)"

subsection \<open>Example states\<close>

text \<open>
  A settled engine of 120 sensors, 4 pressure zones and 8 racks with no breach and an
  empty log; the same with sensor 32 reading 8 degrees above its baseline; and states
  the actions build from them.
\<close>

definition quiet :: engine where
  "quiet =
     \<lparr>temps = replicate 120 19.2, dpArr = replicate 4 28.4, rackPwr = replicate 8 80,
      breaches = [], alerts = [], trend = 0,
      baseline = replicate 120 19.2, baseDp = replicate 4 28.4,
      breachId = 0, alertId = 0\<rparr>"

definition hot_temps :: "real list" where
  "hot_temps = (replicate 120 19.2)[32 := 27.2]"

definition heated :: engine where
  "heated = quiet\<lparr>temps := hot_temps\<rparr>"

definition draws :: "real \<times> real \<times> real" where
  "draws = (1 / 2, 1 / 2, 1 / 2)"

definition breached :: engine where
  "breached = (induce 32 ''Zone B'' 0 draws quiet)\<lparr>temps := hot_temps\<rparr>"

definition cleared :: engine where
  "cleared = (clearAll 0 quiet)\<lparr>temps := hot_temps\<rparr>"

definition three_breaches :: engine where
  "three_breaches =
     induce 91 ''Zone D'' 2000 draws
       (induce 64 ''Zone C'' 1000 draws (induce 8 ''Zone A'' 0 draws quiet))"

definition full_log :: engine where
  "full_log = ((induce 8 ''Zone A'' 0 draws) ^^ 30) quiet"

definition draws60 :: "real \<times> real \<times> real" where
  "draws60 = (1 / 2, 1 / 2, 1 / 5)"

definition one_breach :: engine where
  "one_breach = induce 32 ''Zone B'' 0 draws60 quiet"

definition zone_b :: breach where
  "zone_b = \<lparr>id_b = 1, pos_b = 32, w_b = 11 / 2, int_b = 23 / 2, dur_b = 60000, t_b = 0,
             label_b = ''Zone B''\<rparr>"

definition still :: tick_random where
  "still = \<lparr>rnd_temp = (\<lambda>i. 1 / 2), rnd_dp = (\<lambda>i. 1 / 2), rnd_rack = (\<lambda>i. 1 / 2),
            rnd_trend = 1 / 2\<rparr>"

section \<open>Basic facts\<close>

lemma length_push_alert: "length (push_alert a prev) = min 30 (Suc (length prev))"
  by (simp add: push_alert_def)

lemma alerts_clearAll:
  "alerts (clearAll now s) = push_alert (clear_alert (Suc (alertId s)) now) (alerts s)"
  by (simp add: clearAll_def Let_def)

lemma breaches_clearAll: "breaches (clearAll now s) = []"
  by (simp add: clearAll_def Let_def)

lemma alerts_induce:
  "alerts (induce pos label now r s) =
     push_alert (breach_alert (Suc (alertId s)) now pos label) (alerts s)"
  by (simp add: induce_def Let_def)

lemma breaches_induce:
  "breaches (induce pos label now r s) =
     breaches s @ [new_breach (Suc (breachId s)) pos label now r]"
  by (simp add: induce_def Let_def)

lemma breachId_induce: "breachId (induce pos label now r s) = Suc (breachId s)"
  by (simp add: induce_def Let_def)

lemma pos_new_breach: "pos_b (new_breach n pos label now r) = pos"
  by (cases r) (simp add: new_breach_def)

lemma alerts_tick: "alerts (tick now rnd s) = alerts s"
  by (simp add: tick_def Let_def)

lemma breaches_tick: "breaches (tick now rnd s) = live_breaches now (breaches s)"
  by (simp add: tick_def Let_def)

lemma temps_tick:
  "temps (tick now rnd s) =
     next_temps (baseline s) (live_breaches now (breaches s)) (rnd_temp rnd) (temps s)"
  by (simp add: tick_def Let_def)

lemma suppressed_iff: "suppressed now prev \<longleftrightarrow> recent_head now prev"
  by (cases prev) (simp_all add: suppressed_def recent_head_def)

lemma alerts_detection_cases:
  "alerts (alertDetection now s) =
     (case js_max (deltas s) of
        None \<Rightarrow> alerts s
      | Some md \<Rightarrow>
          if md > 4.5 \<and> \<not> suppressed now (alerts s)
          then push_alert (thermal_alert (Suc (alertId s)) now md (indexOf (deltas s) md))
                 (alerts s)
          else alerts s)"
  by (simp add: alertDetection_def Let_def split: option.split)

lemma alerts_detection_suppressed:
  "suppressed now (alerts s) \<Longrightarrow> alerts (alertDetection now s) = alerts s"
  by (simp add: alerts_detection_cases split: option.split)

lemma alerts_detection_emit:
  "js_max (deltas s) = Some md \<Longrightarrow> md > 4.5 \<Longrightarrow> \<not> suppressed now (alerts s) \<Longrightarrow>
   alerts (alertDetection now s) =
     push_alert (thermal_alert (Suc (alertId s)) now md (indexOf (deltas s) md)) (alerts s)"
  by (simp add: alerts_detection_cases)

lemma suppressed_push_alert: "now - ts_a a < 9000 \<Longrightarrow> suppressed now (push_alert a prev)"
  by (simp add: suppressed_def push_alert_def)

lemma take_29_cases:
  "length prev \<le> 30 \<Longrightarrow>
   take 29 prev = (if length prev = 30 then butlast prev else prev)"
  by (simp add: butlast_conv_take)

subsection \<open>The example states\<close>

lemma js_max_heated: "js_max (deltas heated) = Some 8"
  by code_simp

lemma indexOf_heated: "indexOf (deltas heated) 8 = 32"
  by code_simp

lemma deltas_breached: "deltas breached = deltas heated"
  by (simp add: breached_def heated_def deltas_def induce_def Let_def)

lemma deltas_cleared: "deltas cleared = deltas heated"
  by (simp add: cleared_def heated_def deltas_def clearAll_def Let_def)

lemma alerts_heated: "alerts heated = []"
  by (simp add: heated_def quiet_def)

lemma alerts_breached:
  "alerts breached = [\<lparr>id_a = 1, ts_a = 0, lvl_a = BREACH, origin_a = Induced 32 ''Zone B''\<rparr>]"
  by (simp add: breached_def alerts_induce push_alert_def breach_alert_def quiet_def)

lemma alerts_cleared:
  "alerts cleared = [\<lparr>id_a = 1, ts_a = 0, lvl_a = CLEAR, origin_a = AllZones\<rparr>]"
  by (simp add: cleared_def alerts_clearAll push_alert_def clear_alert_def quiet_def)

lemma reachable_quiet: "reachable quiet"
  by (rule reachable.initial) (simp_all add: quiet_def)

section \<open>The actions\<close>

text \<open>
  Claim C4. For every engine state, \<open>clearAll\<close> leaves the list of active breaches
  empty at once (its length is 0 before any tick runs), and the alert log afterwards
  is one new alert of level \<open>CLEAR\<close>, stamped with the current time, in front of the
  first 29 entries of the old log.
\<close>

theorem clearAll_contract:
  "breaches (clearAll now s) = [] \<and>
   length (breaches (clearAll now s)) = 0 \<and>
   alerts (clearAll now s) = clear_alert (Suc (alertId s)) now # take 29 (alerts s) \<and>
   lvl_a (clear_alert (Suc (alertId s)) now) = CLEAR \<and>
   ts_a (clear_alert (Suc (alertId s)) now) = now"
  by (simp add: breaches_clearAll alerts_clearAll push_alert_def clear_alert_def)

text \<open>The scenario of the claim: an engine with three active breaches.\<close>

theorem clearAll_contract_witness:
  "length (breaches three_breaches) = 3 \<and>
   map lvl_a (alerts three_breaches) = [BREACH, BREACH, BREACH] \<and>
   length (breaches (clearAll 3000 three_breaches)) = 0 \<and>
   map lvl_a (alerts (clearAll 3000 three_breaches)) = [CLEAR, BREACH, BREACH, BREACH] \<and>
   map ts_a (alerts (clearAll 3000 three_breaches)) = [3000, 2000, 1000, 0]"
proof -
  have before: "length (breaches three_breaches) = 3"
    by (simp add: three_breaches_def breaches_induce quiet_def)
  have log: "alerts three_breaches =
      [breach_alert 3 2000 91 ''Zone D'', breach_alert 2 1000 64 ''Zone C'',
       breach_alert 1 0 8 ''Zone A'']"
    by (simp add: three_breaches_def alerts_induce push_alert_def quiet_def induce_def Let_def
        numeral_2_eq_2 numeral_3_eq_3)
  from clearAll_contract [of 3000 three_breaches] before log show ?thesis
    by (simp add: breach_alert_def clear_alert_def)
qed

text \<open>
  Claim C3. Every call of \<open>induce\<close> succeeds (the function has no failing branch):
  it appends exactly one breach to the active list and prepends exactly one alert of
  level \<open>BREACH\<close> to the first 29 entries of the old log. Nothing in it looks at
  the age of the most recent alert, so the alert is written also when the head of the
  log is less than 9000 ms old.
\<close>

theorem induce_contract:
  "breaches (induce pos label now r s) =
     breaches s @ [new_breach (Suc (breachId s)) pos label now r] \<and>
   length (breaches (induce pos label now r s)) = Suc (length (breaches s)) \<and>
   alerts (induce pos label now r s) =
     breach_alert (Suc (alertId s)) now pos label # take 29 (alerts s) \<and>
   lvl_a (breach_alert (Suc (alertId s)) now pos label) = BREACH \<and>
   ts_a (breach_alert (Suc (alertId s)) now pos label) = now"
  by (simp add: breaches_induce alerts_induce push_alert_def breach_alert_def)

text \<open>A second breach induced 1 ms after the first: the head of the log is 1 ms old,
  the detection effect would be suppressed, and the \<open>BREACH\<close> alert is written.\<close>

theorem induce_contract_witness:
  "suppressed 1 (alerts breached) \<and>
   length (breaches breached) = 1 \<and>
   length (breaches (induce 64 ''Zone C'' 1 draws breached)) = 2 \<and>
   map lvl_a (alerts (induce 64 ''Zone C'' 1 draws breached)) = [BREACH, BREACH] \<and>
   map ts_a (alerts (induce 64 ''Zone C'' 1 draws breached)) = [1, 0]"
proof -
  have one: "length (breaches breached) = 1"
    by (simp add: breached_def breaches_induce quiet_def)
  from induce_contract [of 64 "''Zone C''" 1 draws breached] one show ?thesis
    by (simp add: alerts_breached suppressed_def breach_alert_def)
qed

text \<open>
  Claim C2, as amended. \<open>induce\<close> does not validate its position. For a position
  outside \<open>0 \<le> pos < 120\<close> the call is accepted like any other: the state changes,
  one breach holding that very position (not clamped) is appended to the active list,
  and one \<open>BREACH\<close> alert is prepended to the log.
\<close>

theorem induce_accepts_any_position:
  "pos < 0 \<or> int N_SENSORS \<le> pos \<longrightarrow>
     induce pos label now r s \<noteq> s \<and>
     breaches (induce pos label now r s) =
       breaches s @ [new_breach (Suc (breachId s)) pos label now r] \<and>
     pos_b (new_breach (Suc (breachId s)) pos label now r) = pos \<and>
     alerts (induce pos label now r s) =
       breach_alert (Suc (alertId s)) now pos label # take 29 (alerts s)"
proof
  assume "pos < 0 \<or> int N_SENSORS \<le> pos"
  have "breachId (induce pos label now r s) \<noteq> breachId s"
    by (simp add: breachId_induce)
  then have "induce pos label now r s \<noteq> s"
    by auto
  then show "induce pos label now r s \<noteq> s \<and>
     breaches (induce pos label now r s) =
       breaches s @ [new_breach (Suc (breachId s)) pos label now r] \<and>
     pos_b (new_breach (Suc (breachId s)) pos label now r) = pos \<and>
     alerts (induce pos label now r s) =
       breach_alert (Suc (alertId s)) now pos label # take 29 (alerts s)"
    by (simp add: breaches_induce alerts_induce pos_new_breach push_alert_def)
qed

theorem induce_accepts_any_position_witness:
  "int N_SENSORS \<le> 120 \<and>
   induce 120 ''Zone X'' 0 draws quiet \<noteq> quiet \<and>
   map pos_b (breaches (induce 120 ''Zone X'' 0 draws quiet)) = [120] \<and>
   map lvl_a (alerts (induce 120 ''Zone X'' 0 draws quiet)) = [BREACH]"
proof -
  have out: "(120 :: int) < 0 \<or> int N_SENSORS \<le> 120"
    by (simp add: N_SENSORS_def)
  from induce_accepts_any_position [of 120 "''Zone X''" 0 draws quiet] out show ?thesis
    by (simp add: pos_new_breach breach_alert_def quiet_def N_SENSORS_def)
qed

text \<open>
  The claim as it was stated fails: position 500 is out of range, and the call on the
  quiet engine is not rejected; it leaves a breach at position 500 and a \<open>BREACH\<close>
  alert behind.
\<close>

theorem induce_out_of_range_not_rejected:
  "\<not> (0 \<le> (500 :: int) \<and> 500 < int N_SENSORS) \<and>
   breaches quiet = [] \<and>
   alerts quiet = [] \<and>
   breaches (induce 500 ''Zone X'' 0 draws quiet) =
     [\<lparr>id_b = 1, pos_b = 500, w_b = 11 / 2, int_b = 23 / 2, dur_b = 67500, t_b = 0,
       label_b = ''Zone X''\<rparr>] \<and>
   alerts (induce 500 ''Zone X'' 0 draws quiet) =
     [\<lparr>id_a = 1, ts_a = 0, lvl_a = BREACH, origin_a = Induced 500 ''Zone X''\<rparr>]"
  by (simp add: N_SENSORS_def quiet_def induce_def Let_def new_breach_def draws_def
      push_alert_def breach_alert_def)

section \<open>Alert detection\<close>

text \<open>
  Claim C1, as amended. On every evaluation of the detection effect where the largest
  reading above baseline \<open>md\<close> exceeds 4.5: if the most recent alert exists and is
  less than 9000 ms old, the log is unchanged (nothing is emitted); otherwise one alert
  is prepended to the first 29 entries of the log, of level \<open>CRITICAL\<close> when
  \<open>md > 7\<close> and \<open>WARNING\<close> otherwise. Consequently, of two such evaluations
  less than 9000 ms apart with no other write to the log in between, at least one
  leaves the log unchanged: they produce at most one alert, and exactly one (that of
  the first) when the first is not itself suppressed.
\<close>

theorem auto_alert_debounce:
  "js_max (deltas s) = Some md \<and> md > 4.5 \<longrightarrow>
     (recent_head now (alerts s) \<longrightarrow> alerts (alertDetection now s) = alerts s) \<and>
     (\<not> recent_head now (alerts s) \<longrightarrow>
        alerts (alertDetection now s) =
          \<lparr>id_a = Suc (alertId s), ts_a = now,
           lvl_a = (if md > 7 then CRITICAL else WARNING),
           origin_a = Thermal md (indexOf (deltas s) md)\<rparr> # take 29 (alerts s)) \<and>
     (\<forall>s' md' now'.
        alerts s' = alerts (alertDetection now s) \<and>
        js_max (deltas s') = Some md' \<and> md' > 4.5 \<and> now' - now < 9000 \<longrightarrow>
          (alerts (alertDetection now s) = alerts s \<or>
           alerts (alertDetection now' s') = alerts s') \<and>
          (\<not> recent_head now (alerts s) \<longrightarrow>
             alerts (alertDetection now' s') =
               \<lparr>id_a = Suc (alertId s), ts_a = now,
                lvl_a = (if md > 7 then CRITICAL else WARNING),
                origin_a = Thermal md (indexOf (deltas s) md)\<rparr> # take 29 (alerts s)))"
proof (intro impI, elim conjE)
  assume md: "js_max (deltas s) = Some md" and above: "md > 4.5"
  let ?a = "\<lparr>id_a = Suc (alertId s), ts_a = now,
             lvl_a = (if md > 7 then CRITICAL else WARNING),
             origin_a = Thermal md (indexOf (deltas s) md)\<rparr>"
  have keep: "recent_head now (alerts s) \<longrightarrow> alerts (alertDetection now s) = alerts s"
    by (simp add: alerts_detection_suppressed suppressed_iff)
  have emit: "\<not> recent_head now (alerts s) \<longrightarrow>
      alerts (alertDetection now s) = ?a # take 29 (alerts s)"
    using md above
    by (simp add: alerts_detection_emit suppressed_iff push_alert_def thermal_alert_def)
  have pair: "(alerts (alertDetection now s) = alerts s \<or>
                 alerts (alertDetection now' s') = alerts s') \<and>
              (\<not> recent_head now (alerts s) \<longrightarrow>
                 alerts (alertDetection now' s') = ?a # take 29 (alerts s))"
    if same: "alerts s' = alerts (alertDetection now s)" and near: "now' - now < 9000"
    for s' now'
  proof (cases "recent_head now (alerts s)")
    case True
    with keep show ?thesis by simp
  next
    case False
    with emit have first: "alerts (alertDetection now s) = ?a # take 29 (alerts s)"
      by simp
    with same near have "suppressed now' (alerts s')"
      by (simp add: suppressed_def)
    then have "alerts (alertDetection now' s') = alerts s'"
      by (rule alerts_detection_suppressed)
    with first same show ?thesis by simp
  qed
  from keep emit pair
  show "(recent_head now (alerts s) \<longrightarrow> alerts (alertDetection now s) = alerts s) \<and>
        (\<not> recent_head now (alerts s) \<longrightarrow>
           alerts (alertDetection now s) = ?a # take 29 (alerts s)) \<and>
        (\<forall>s' md' now'.
           alerts s' = alerts (alertDetection now s) \<and>
           js_max (deltas s') = Some md' \<and> md' > 4.5 \<and> now' - now < 9000 \<longrightarrow>
             (alerts (alertDetection now s) = alerts s \<or>
              alerts (alertDetection now' s') = alerts s') \<and>
             (\<not> recent_head now (alerts s) \<longrightarrow>
                alerts (alertDetection now' s') = ?a # take 29 (alerts s)))"
    by blast
qed

text \<open>On the heated engine with an empty log: the evaluation at 100000 ms emits a
  \<open>CRITICAL\<close> alert, the one at 104000 ms emits nothing.\<close>

theorem auto_alert_debounce_witness:
  "js_max (deltas heated) = Some 8 \<and>
   \<not> recent_head 100000 (alerts heated) \<and>
   alerts (alertDetection 100000 heated) =
     [\<lparr>id_a = 1, ts_a = 100000, lvl_a = CRITICAL, origin_a = Thermal 8 32\<rparr>] \<and>
   alerts (alertDetection 104000 (alertDetection 100000 heated)) =
     [\<lparr>id_a = 1, ts_a = 100000, lvl_a = CRITICAL, origin_a = Thermal 8 32\<rparr>]"
proof -
  let ?s1 = "alertDetection 100000 heated"
  have fresh: "\<not> recent_head 100000 (alerts heated)"
    by (simp add: recent_head_def alerts_heated)
  have same_temps: "deltas ?s1 = deltas heated"
    by (simp add: alertDetection_def deltas_def Let_def split: option.split)
  have id0: "alertId heated = 0"
    by (simp add: heated_def quiet_def)
  have "(8 :: real) > 4.5" by simp
  with auto_alert_debounce [of heated 8 100000] js_max_heated fresh
  have first: "alerts ?s1 =
        \<lparr>id_a = Suc (alertId heated), ts_a = 100000,
         lvl_a = (if (8 :: real) > 7 then CRITICAL else WARNING),
         origin_a = Thermal 8 (indexOf (deltas heated) 8)\<rparr> # take 29 (alerts heated)"
    and second: "alerts ?s1 = alerts ?s1 \<and> js_max (deltas ?s1) = Some 8 \<and>
        (8 :: real) > 4.5 \<and> (104000 :: int) - 100000 < 9000 \<longrightarrow>
        alerts (alertDetection 104000 ?s1) =
        \<lparr>id_a = Suc (alertId heated), ts_a = 100000,
         lvl_a = (if (8 :: real) > 7 then CRITICAL else WARNING),
         origin_a = Thermal 8 (indexOf (deltas heated) 8)\<rparr> # take 29 (alerts heated)"
    by blast+
  from first second same_temps js_max_heated fresh show ?thesis
    by (simp add: indexOf_heated alerts_heated id0)
qed

text \<open>
  The last sentence of the claim as it was stated (two excursions within 9 seconds
  produce exactly one auto-alert) fails: a breach is induced at 0 ms, the sensors
  are 8 degrees above baseline at the evaluations of 2000 ms and 2500 ms, and both are
  suppressed by the \<open>BREACH\<close> alert; the log holds that alert alone, no auto-alert.
\<close>

theorem two_excursions_no_auto_alert:
  "js_max (deltas breached) = Some 8 \<and>
   js_max (deltas (alertDetection 2000 breached)) = Some 8 \<and>
   map lvl_a (alerts breached) = [BREACH] \<and>
   alerts (alertDetection 2000 breached) = alerts breached \<and>
   alerts (alertDetection 2500 (alertDetection 2000 breached)) = alerts breached"
proof -
  have same_temps: "deltas (alertDetection 2000 breached) = deltas breached"
    by (simp add: alertDetection_def deltas_def Let_def split: option.split)
  have one: "alerts (alertDetection 2000 breached) = alerts breached"
    by (simp add: alerts_detection_suppressed suppressed_def alerts_breached)
  then have two: "alerts (alertDetection 2500 (alertDetection 2000 breached)) = alerts breached"
    by (simp add: alerts_detection_suppressed suppressed_def alerts_breached)
  from same_temps one two show ?thesis
    by (simp add: deltas_breached js_max_heated alerts_breached)
qed

text \<open>
  Claim C10. The suppression test reads the head of the log whatever its level. If
  the head is a \<open>BREACH\<close> or \<open>CLEAR\<close> alert less than 9000 ms old, the
  detection effect leaves the log unchanged, however large the excess over baseline;
  so for 9 seconds after \<open>induce\<close> or \<open>clearAll\<close> at time \<open>t0\<close>, with no other
  write to the log, no auto-alert is emitted.
\<close>

theorem user_alert_suppresses_detection:
  "(alerts s \<noteq> [] \<and> (lvl_a (hd (alerts s)) = BREACH \<or> lvl_a (hd (alerts s)) = CLEAR) \<and>
    now - ts_a (hd (alerts s)) < 9000 \<longrightarrow>
      alerts (alertDetection now s) = alerts s) \<and>
   (now - t0 < 9000 \<and> alerts s' = alerts (induce pos label t0 r s) \<longrightarrow>
      lvl_a (hd (alerts s')) = BREACH \<and> alerts (alertDetection now s') = alerts s') \<and>
   (now - t0 < 9000 \<and> alerts s' = alerts (clearAll t0 s) \<longrightarrow>
      lvl_a (hd (alerts s')) = CLEAR \<and> alerts (alertDetection now s') = alerts s')"
proof (intro conjI impI)
  assume "alerts s \<noteq> [] \<and> (lvl_a (hd (alerts s)) = BREACH \<or> lvl_a (hd (alerts s)) = CLEAR) \<and>
    now - ts_a (hd (alerts s)) < 9000"
  then have "suppressed now (alerts s)"
    by (simp add: suppressed_iff recent_head_def)
  then show "alerts (alertDetection now s) = alerts s"
    by (rule alerts_detection_suppressed)
next
  assume a: "now - t0 < 9000 \<and> alerts s' = alerts (induce pos label t0 r s)"
  then show "lvl_a (hd (alerts s')) = BREACH"
    by (simp add: alerts_induce push_alert_def breach_alert_def)
  from a have "suppressed now (alerts s')"
    by (simp add: alerts_induce suppressed_push_alert breach_alert_def)
  then show "alerts (alertDetection now s') = alerts s'"
    by (rule alerts_detection_suppressed)
next
  assume a: "now - t0 < 9000 \<and> alerts s' = alerts (clearAll t0 s)"
  then show "lvl_a (hd (alerts s')) = CLEAR"
    by (simp add: alerts_clearAll push_alert_def clear_alert_def)
  from a have "suppressed now (alerts s')"
    by (simp add: alerts_clearAll suppressed_push_alert clear_alert_def)
  then show "alerts (alertDetection now s') = alerts s'"
    by (rule alerts_detection_suppressed)
qed

text \<open>The same readings, 8 degrees above baseline, evaluated at 8999 ms: with an empty
  log an alert is emitted; after a breach induced or a clear-all at 0 ms, none is.\<close>

theorem user_alert_suppresses_detection_witness:
  "js_max (deltas breached) = Some 8 \<and>
   js_max (deltas cleared) = Some 8 \<and>
   map lvl_a (alerts (alertDetection 8999 heated)) = [CRITICAL] \<and>
   map lvl_a (alerts (alertDetection 8999 breached)) = [BREACH] \<and>
   map lvl_a (alerts (alertDetection 8999 cleared)) = [CLEAR]"
proof -
  have b: "alerts breached = alerts (induce 32 ''Zone B'' 0 draws quiet)"
    by (simp add: breached_def)
  have c: "alerts cleared = alerts (clearAll 0 quiet)"
    by (simp add: cleared_def)
  have near: "(8999 :: int) - 0 < 9000"
    by simp
  from user_alert_suppresses_detection
         [of quiet 8999 0 breached 32 "''Zone B''" draws] b near
  have kept_b: "alerts (alertDetection 8999 breached) = alerts breached"
    by blast
  from user_alert_suppresses_detection
         [of quiet 8999 0 cleared 32 "''Zone B''" draws] c near
  have kept_c: "alerts (alertDetection 8999 cleared) = alerts cleared"
    by blast
  have emitted: "map lvl_a (alerts (alertDetection 8999 heated)) = [CRITICAL]"
    using js_max_heated
    by (simp add: alerts_detection_cases suppressed_def alerts_heated push_alert_def
        thermal_alert_def)
  from kept_b kept_c emitted show ?thesis
    by (simp add: deltas_breached deltas_cleared js_max_heated alerts_breached alerts_cleared)
qed

section \<open>The bounded alert log\<close>

lemma length_alerts_detection:
  "length (alerts s) \<le> 30 \<Longrightarrow> length (alerts (alertDetection now s)) \<le> 30"
  by (simp add: alerts_detection_cases length_push_alert split: option.split)

lemma reachable_alerts_bounded: "reachable s \<Longrightarrow> length (alerts s) \<le> 30"
proof (induction rule: reachable.induct)
  case (initial s)
  then show ?case by simp
next
  case (by_tick s now rnd)
  then show ?case by (simp add: alerts_tick)
next
  case (by_detection s now)
  then show ?case by (simp add: length_alerts_detection)
next
  case (by_induce s pos label now r)
  show ?case by (simp add: alerts_induce length_push_alert)
next
  case (by_clearAll s now)
  show ?case by (simp add: alerts_clearAll length_push_alert)
qed

lemma reachable_induce_pow: "reachable s \<Longrightarrow> reachable (((induce pos label now r) ^^ n) s)"
  by (induction n) (simp_all add: reachable.by_induce)

lemma alertId_induce: "alertId (induce pos label now r s) = Suc (alertId s)"
  by (simp add: induce_def Let_def)

lemma alertId_induce_pow: "alertId (((induce pos label now r) ^^ n) s) = alertId s + n"
  by (induction n) (simp_all add: alertId_induce)

lemma ids_induce_pow:
  "n \<le> 30 \<Longrightarrow> alertId s = 0 \<Longrightarrow> alerts s = [] \<Longrightarrow>
   map id_a (alerts (((induce pos label now r) ^^ n) s)) = rev [1..<Suc n]"
proof (induction n)
  case 0
  then show ?case by simp
next
  case (Suc n)
  then have prev: "map id_a (alerts (((induce pos label now r) ^^ n) s)) = rev [1..<Suc n]"
    by simp
  then have "length (alerts (((induce pos label now r) ^^ n) s)) = n"
    by (simp flip: length_map [of id_a])
  with Suc.prems(1) have "take 29 (alerts (((induce pos label now r) ^^ n) s)) =
      alerts (((induce pos label now r) ^^ n) s)"
    by simp
  with prev Suc.prems(2) show ?case
    by (simp add: alerts_induce push_alert_def breach_alert_def alertId_induce_pow)
qed

lemma alerts_detection_shape:
  "alerts (alertDetection now s) = alerts s \<or>
   (\<exists>md. alerts (alertDetection now s) =
      thermal_alert (Suc (alertId s)) now md (indexOf (deltas s) md) # take 29 (alerts s))"
  by (auto simp add: alerts_detection_cases push_alert_def split: option.split)

text \<open>
  Claim C6. In every reachable state the alert log has at most 30 entries, and it
  still has after each of the three writers. Each writer puts its new alert at the
  head; behind it stands the old log, without its last (oldest) entry when the old log
  was full. (The detection effect either writes so or leaves the log as it is.)
\<close>

theorem alert_log_bounded:
  "reachable s \<longrightarrow>
     length (alerts s) \<le> 30 \<and>
     length (alerts (induce pos label now r s)) \<le> 30 \<and>
     length (alerts (clearAll now s)) \<le> 30 \<and>
     length (alerts (alertDetection now s)) \<le> 30 \<and>
     alerts (induce pos label now r s) =
       breach_alert (Suc (alertId s)) now pos label #
         (if length (alerts s) = 30 then butlast (alerts s) else alerts s) \<and>
     alerts (clearAll now s) =
       clear_alert (Suc (alertId s)) now #
         (if length (alerts s) = 30 then butlast (alerts s) else alerts s) \<and>
     (alerts (alertDetection now s) = alerts s \<or>
      (\<exists>md. alerts (alertDetection now s) =
         thermal_alert (Suc (alertId s)) now md (indexOf (deltas s) md) #
           (if length (alerts s) = 30 then butlast (alerts s) else alerts s)))"
proof
  assume "reachable s"
  then have bound: "length (alerts s) \<le> 30"
    by (rule reachable_alerts_bounded)
  then have evict: "take 29 (alerts s) =
      (if length (alerts s) = 30 then butlast (alerts s) else alerts s)"
    by (rule take_29_cases)
  have detect: "alerts (alertDetection now s) = alerts s \<or>
      (\<exists>md. alerts (alertDetection now s) =
         thermal_alert (Suc (alertId s)) now md (indexOf (deltas s) md) #
           (if length (alerts s) = 30 then butlast (alerts s) else alerts s))"
    using alerts_detection_shape [of now s] unfolding evict .
  have lengths: "length (alerts (induce pos label now r s)) \<le> 30 \<and>
      length (alerts (clearAll now s)) \<le> 30 \<and>
      length (alerts (alertDetection now s)) \<le> 30"
    using bound
    by (simp add: alerts_induce alerts_clearAll length_push_alert length_alerts_detection)
  have writers: "alerts (induce pos label now r s) =
       breach_alert (Suc (alertId s)) now pos label #
         (if length (alerts s) = 30 then butlast (alerts s) else alerts s) \<and>
     alerts (clearAll now s) =
       clear_alert (Suc (alertId s)) now #
         (if length (alerts s) = 30 then butlast (alerts s) else alerts s)"
    using evict by (simp add: alerts_induce alerts_clearAll push_alert_def)
  from bound lengths writers detect
  show "length (alerts s) \<le> 30 \<and>
     length (alerts (induce pos label now r s)) \<le> 30 \<and>
     length (alerts (clearAll now s)) \<le> 30 \<and>
     length (alerts (alertDetection now s)) \<le> 30 \<and>
     alerts (induce pos label now r s) =
       breach_alert (Suc (alertId s)) now pos label #
         (if length (alerts s) = 30 then butlast (alerts s) else alerts s) \<and>
     alerts (clearAll now s) =
       clear_alert (Suc (alertId s)) now #
         (if length (alerts s) = 30 then butlast (alerts s) else alerts s) \<and>
     (alerts (alertDetection now s) = alerts s \<or>
      (\<exists>md. alerts (alertDetection now s) =
         thermal_alert (Suc (alertId s)) now md (indexOf (deltas s) md) #
           (if length (alerts s) = 30 then butlast (alerts s) else alerts s)))"
    by blast
qed

text \<open>A log filled by 30 induced breaches (ids 30 down to 1): clear-all puts alert 31
  at the head and drops alert 1 from the tail.\<close>

theorem alert_log_bounded_witness:
  "reachable full_log \<and>
   map id_a (alerts full_log) = rev [1..<31] \<and>
   length (alerts (clearAll 1 full_log)) \<le> 30 \<and>
   map id_a (alerts (clearAll 1 full_log)) = 31 # rev [2..<31] \<and>
   lvl_a (hd (alerts (clearAll 1 full_log))) = CLEAR"
proof -
  have reach: "reachable full_log"
    unfolding full_log_def by (rule reachable_induce_pow) (rule reachable_quiet)
  have ids: "map id_a (alerts full_log) = rev [1..<31]"
    unfolding full_log_def by (simp add: ids_induce_pow quiet_def)
  then have full: "length (alerts full_log) = 30"
    by (simp flip: length_map [of id_a])
  have next_id: "alertId full_log = 30"
    by (simp add: full_log_def alertId_induce_pow quiet_def)
  have drop_oldest: "butlast (rev [1..<31]) = rev [2..<(31 :: nat)]"
    by code_simp
  from alert_log_bounded [of full_log 8 "''Zone A''" 1 draws] reach
  have len: "length (alerts (clearAll 1 full_log)) \<le> 30"
    and log: "alerts (clearAll 1 full_log) =
       clear_alert (Suc (alertId full_log)) 1 #
         (if length (alerts full_log) = 30 then butlast (alerts full_log)
          else alerts full_log)"
    by blast+
  from log full have "map id_a (alerts (clearAll 1 full_log)) =
      Suc (alertId full_log) # butlast (map id_a (alerts full_log))"
    by (simp add: map_butlast clear_alert_def)
  with ids next_id drop_oldest
  have new_ids: "map id_a (alerts (clearAll 1 full_log)) = 31 # rev [2..<31]"
    by simp
  from log have "lvl_a (hd (alerts (clearAll 1 full_log))) = CLEAR"
    by (simp add: clear_alert_def)
  with reach ids len new_ids show ?thesis
    by blast
qed

section \<open>The simulation tick\<close>

lemma set_live_breaches:
  "b \<in> set (live_breaches now bs) \<longleftrightarrow> b \<in> set bs \<and> real_of_int (now - t_b b) < dur_b b"
  by (simp add: live_breaches_def)

lemma breaches_one_breach: "breaches one_breach = [zone_b]"
  by (simp add: one_breach_def breaches_induce new_breach_def draws60_def zone_b_def quiet_def)

text \<open>
  Claim C5. A breach \<open>b\<close> is in the active list a tick at time \<open>now\<close> computes
  exactly when it was in the list before and \<open>now - t < dur\<close> holds for its creation
  time \<open>t\<close> and duration \<open>dur\<close>. So it is absent at every tick with
  \<open>now \<ge> t + dur\<close> (no breach is active past its creation time plus duration), and,
  when it has not been removed, present at every tick with \<open>now < t + dur\<close>.
\<close>

theorem breach_expiry:
  "(b \<in> set (breaches (tick now rnd s)) \<longleftrightarrow>
      b \<in> set (breaches s) \<and> real_of_int (now - t_b b) < dur_b b) \<and>
   (real_of_int (t_b b) + dur_b b \<le> real_of_int now \<longrightarrow>
      b \<notin> set (breaches (tick now rnd s))) \<and>
   (b \<in> set (breaches s) \<and> real_of_int now < real_of_int (t_b b) + dur_b b \<longrightarrow>
      b \<in> set (breaches (tick now rnd s)))"
  by (auto simp add: breaches_tick set_live_breaches)

text \<open>A breach of duration 60000 ms created at 0 ms: active in the tick at 59999 ms,
  gone in the tick at 60000 ms.\<close>

theorem breach_expiry_witness:
  "breaches one_breach = [zone_b] \<and>
   t_b zone_b = 0 \<and> dur_b zone_b = 60000 \<and>
   zone_b \<in> set (breaches (tick 59999 still one_breach)) \<and>
   zone_b \<notin> set (breaches (tick 60000 still one_breach))"
proof -
  have created: "t_b zone_b = 0" and lasts: "dur_b zone_b = 60000"
    by (simp_all add: zone_b_def)
  have listed: "zone_b \<in> set (breaches one_breach)"
    by (simp add: breaches_one_breach)
  from breach_expiry [of zone_b 59999 still one_breach] listed created lasts
  have early: "zone_b \<in> set (breaches (tick 59999 still one_breach))"
    by simp
  from breach_expiry [of zone_b 60000 still one_breach] created lasts
  have late: "zone_b \<notin> set (breaches (tick 60000 still one_breach))"
    by simp
  from created lasts early late show ?thesis
    by (simp add: breaches_one_breach)
qed

lemma temp_step_plume:
  "temp_step b i target = target + (if in_reach i b then plume i b else 0)"
proof -
  have "(\<bar>real i - real_of_int (pos_b b)\<bar> / (w_b b * 0.5))\<^sup>2 =
        ((real i - real_of_int (pos_b b)) / (0.5 * w_b b))\<^sup>2"
    by (simp only: power_divide power2_abs mult.commute)
  then show ?thesis
    by (simp add: temp_step_def Let_def in_reach_def plume_def mult.commute)
qed

lemma fold_temp_step:
  "fold (\<lambda>b target. temp_step b i target) live acc =
     acc + (\<Sum>b\<leftarrow>live. if in_reach i b then plume i b else 0)"
  by (induction live arbitrary: acc) (simp_all add: temp_step_plume)

lemma temp_target_sum:
  "temp_target base live r i =
     base ! i + (r - 0.5) * 0.2 + (\<Sum>b\<leftarrow>filter (in_reach i) live. plume i b)"
  by (simp add: temp_target_def fold_temp_step sum_list_map_filter')

lemma length_next_temps: "length (next_temps base live rnd prev) = length prev"
  by (simp add: next_temps_def)

lemma nth_next_temps:
  "i < length prev \<Longrightarrow>
   next_temps base live rnd prev ! i =
     prev ! i * 0.68 + temp_target base live (rnd i) i * 0.32"
  by (simp add: next_temps_def nth_enumerate_eq)

text \<open>
  Claim C8. At every tick, the new reading of each sensor \<open>i\<close> is 0.68 times the
  previous reading plus 0.32 times a target: the baseline of \<open>i\<close>, plus a noise term
  (a draw of \<open>Math.random()\<close> in \<open>[0, 1)\<close>, shifted and scaled into \<open>\<plusminus>0.1\<close>), plus
  the sum, over the breaches active in this tick with \<open>|i - pos| < 2 w\<close>, of
  \<open>int * exp (-0.5 * ((i - pos) / (0.5 w))\<^sup>2)\<close>. Breaches beyond the cutoff are
  not in the sum, and the sum has no cap. The array keeps its length.
\<close>

theorem sensor_update:
  "i < length (temps s) \<longrightarrow>
     temps (tick now rnd s) ! i =
       0.68 * (temps s ! i) +
       0.32 * (baseline s ! i + (rnd_temp rnd i - 0.5) * 0.2 +
               (\<Sum>b\<leftarrow>filter (\<lambda>b. \<bar>real i - real_of_int (pos_b b)\<bar> < 2 * w_b b)
                        (breaches (tick now rnd s)).
                  int_b b *
                  exp (- 0.5 * ((real i - real_of_int (pos_b b)) / (0.5 * w_b b))\<^sup>2))) \<and>
     (0 \<le> rnd_temp rnd i \<and> rnd_temp rnd i < 1 \<longrightarrow>
        - 0.1 \<le> (rnd_temp rnd i - 0.5) * 0.2 \<and> (rnd_temp rnd i - 0.5) * 0.2 < 0.1) \<and>
     length (temps (tick now rnd s)) = length (temps s)"
proof
  assume i: "i < length (temps s)"
  have plumes:
    "(\<Sum>b\<leftarrow>filter (\<lambda>b. \<bar>real i - real_of_int (pos_b b)\<bar> < 2 * w_b b)
            (breaches (tick now rnd s)).
        int_b b * exp (- 0.5 * ((real i - real_of_int (pos_b b)) / (0.5 * w_b b))\<^sup>2))
     = (\<Sum>b\<leftarrow>filter (in_reach i) (live_breaches now (breaches s)). plume i b)"
    unfolding in_reach_def plume_def breaches_tick ..
  have "temps (tick now rnd s) ! i =
          temps s ! i * 0.68 +
          temp_target (baseline s) (live_breaches now (breaches s)) (rnd_temp rnd i) i * 0.32"
    using i by (simp add: temps_tick nth_next_temps)
  then have reading: "temps (tick now rnd s) ! i =
       0.68 * (temps s ! i) +
       0.32 * (baseline s ! i + (rnd_temp rnd i - 0.5) * 0.2 +
               (\<Sum>b\<leftarrow>filter (in_reach i) (live_breaches now (breaches s)). plume i b))"
    by (simp add: temp_target_sum mult.commute)
  have noise: "0 \<le> rnd_temp rnd i \<and> rnd_temp rnd i < 1 \<longrightarrow>
        - 0.1 \<le> (rnd_temp rnd i - 0.5) * 0.2 \<and> (rnd_temp rnd i - 0.5) * 0.2 < 0.1"
    by simp
  have len: "length (temps (tick now rnd s)) = length (temps s)"
    by (simp add: temps_tick length_next_temps)
  from reading noise len show "temps (tick now rnd s) ! i =
       0.68 * (temps s ! i) +
       0.32 * (baseline s ! i + (rnd_temp rnd i - 0.5) * 0.2 +
               (\<Sum>b\<leftarrow>filter (\<lambda>b. \<bar>real i - real_of_int (pos_b b)\<bar> < 2 * w_b b)
                        (breaches (tick now rnd s)).
                  int_b b *
                  exp (- 0.5 * ((real i - real_of_int (pos_b b)) / (0.5 * w_b b))\<^sup>2))) \<and>
     (0 \<le> rnd_temp rnd i \<and> rnd_temp rnd i < 1 \<longrightarrow>
        - 0.1 \<le> (rnd_temp rnd i - 0.5) * 0.2 \<and> (rnd_temp rnd i - 0.5) * 0.2 < 0.1) \<and>
     length (temps (tick now rnd s)) = length (temps s)"
    unfolding plumes by blast
qed

text \<open>One breach at sensor 32 of width 5.5 and intensity 11.5, no noise: after
  one tick sensor 32 reads \<open>19.2 + 0.32 * 11.5\<close>, and sensor 43, at distance 11 (twice
  the width, so beyond the cutoff), still reads 19.2.\<close>

theorem sensor_update_witness:
  "32 < length (temps one_breach) \<and> 43 < length (temps one_breach) \<and>
   breaches (tick 500 still one_breach) = [zone_b] \<and>
   temps (tick 500 still one_breach) ! 32 = 22.88 \<and>
   temps (tick 500 still one_breach) ! 43 = 19.2 \<and>
   length (temps (tick 500 still one_breach)) = 120"
proof -
  have temps0: "temps one_breach = replicate 120 19.2"
    and base0: "baseline one_breach = replicate 120 19.2"
    by (simp_all add: one_breach_def induce_def Let_def quiet_def)
  have live: "breaches (tick 500 still one_breach) = [zone_b]"
    by (simp add: breaches_tick live_breaches_def breaches_one_breach zone_b_def)
  have calm: "rnd_temp still 32 = 1 / 2" "rnd_temp still 43 = 1 / 2"
    by (simp_all add: still_def)
  from sensor_update [of 32 one_breach 500 still] temps0
  have "temps (tick 500 still one_breach) ! 32 =
       0.68 * (temps one_breach ! 32) +
       0.32 * (baseline one_breach ! 32 + (rnd_temp still 32 - 0.5) * 0.2 +
               (\<Sum>b\<leftarrow>filter (\<lambda>b. \<bar>real 32 - real_of_int (pos_b b)\<bar> < 2 * w_b b)
                        (breaches (tick 500 still one_breach)).
                  int_b b *
                  exp (- 0.5 * ((real 32 - real_of_int (pos_b b)) / (0.5 * w_b b))\<^sup>2)))"
    and len: "length (temps (tick 500 still one_breach)) = length (temps one_breach)"
    by simp_all
  then have at_breach: "temps (tick 500 still one_breach) ! 32 = 22.88"
    unfolding live by (simp add: temps0 base0 calm zone_b_def)
  from sensor_update [of 43 one_breach 500 still] temps0
  have "temps (tick 500 still one_breach) ! 43 =
       0.68 * (temps one_breach ! 43) +
       0.32 * (baseline one_breach ! 43 + (rnd_temp still 43 - 0.5) * 0.2 +
               (\<Sum>b\<leftarrow>filter (\<lambda>b. \<bar>real 43 - real_of_int (pos_b b)\<bar> < 2 * w_b b)
                        (breaches (tick 500 still one_breach)).
                  int_b b *
                  exp (- 0.5 * ((real 43 - real_of_int (pos_b b)) / (0.5 * w_b b))\<^sup>2)))"
    by simp
  then have at_cutoff: "temps (tick 500 still one_breach) ! 43 = 19.2"
    unfolding live by (simp add: temps0 base0 calm zone_b_def)
  from live at_breach at_cutoff len show ?thesis
    by (simp add: temps0)
qed

section \<open>The risk score\<close>

lemma thermalScore_of_range: "0 \<le> thermalScore_of md \<and> thermalScore_of md \<le> 1"
  by (simp add: thermalScore_of_def)

lemma thermalScore_of_mono: "md \<le> md' \<Longrightarrow> thermalScore_of md \<le> thermalScore_of md'"
  by (simp add: thermalScore_of_def min_def max_def divide_right_mono)

lemma dpScore_range: "0 \<le> dpScore s \<and> dpScore s \<le> 1"
  by (simp add: dpScore_def)

lemma rackScore_range: "0 \<le> rackScore s \<and> rackScore s \<le> 1"
  by (simp add: rackScore_def)

lemma bari_of_mono: "th \<le> th' \<Longrightarrow> bari_of th dp rk \<le> bari_of th' dp rk"
  by (simp add: bari_of_def min_def)

lemma bari_of_range:
  "0 \<le> th \<Longrightarrow> 0 \<le> dp \<Longrightarrow> 0 \<le> rk \<Longrightarrow> 0 \<le> bari_of th dp rk \<and> bari_of th dp rk \<le> 1"
  by (simp add: bari_of_def)

lemma maxDelta_quiet: "maxDelta quiet = 0"
  by code_simp

lemma maxDelta_heated: "maxDelta heated = 8"
  by code_simp

lemma dpScore_heated: "dpScore heated = dpScore quiet"
  by (simp add: heated_def dpScore_def dpDrop_def)

lemma rackScore_quiet: "rackScore quiet = 0"
  by code_simp

lemma rackScore_heated: "rackScore heated = 0"
  by code_simp

lemma bari_quiet: "bari quiet = 0"
  by code_simp

lemma bari_heated: "bari heated = 7 / 20"
  by code_simp

text \<open>
  Claim C7. For every sensor array and pressure array the score \<open>bari\<close> lies in
  \<open>[0, 1]\<close>. With the pressure and rack scores held fixed it is monotone in
  \<open>maxDelta\<close>: a state with a larger (or equal) \<open>maxDelta\<close> and the same two
  scores has a larger (or equal) \<open>bari\<close>; and so has the score as a function of
  \<open>maxDelta\<close> and the two scores.
\<close>

theorem bari_range_and_monotone:
  "0 \<le> bari s \<and> bari s \<le> 1 \<and>
   (maxDelta s \<le> maxDelta s' \<and> dpScore s' = dpScore s \<and> rackScore s' = rackScore s \<longrightarrow>
      bari s \<le> bari s') \<and>
   (md \<le> md' \<longrightarrow>
      bari_of (thermalScore_of md) dp rk \<le> bari_of (thermalScore_of md') dp rk)"
proof -
  have bounds: "0 \<le> bari s \<and> bari s \<le> 1"
    unfolding bari_def thermalScore_def
    using thermalScore_of_range dpScore_range rackScore_range by (simp add: bari_of_range)
  have mono: "bari_of (thermalScore_of a) dp rk \<le> bari_of (thermalScore_of b) dp rk"
    if "a \<le> b" for a b
    using that by (simp add: thermalScore_of_mono bari_of_mono)
  have states: "bari s \<le> bari s'"
    if "maxDelta s \<le> maxDelta s'" "dpScore s' = dpScore s" "rackScore s' = rackScore s"
    using that by (simp add: bari_def thermalScore_def thermalScore_of_mono bari_of_mono)
  from bounds mono states show ?thesis by blast
qed

text \<open>The quiet engine (\<open>maxDelta\<close> 0, score 0) against the heated one
  (\<open>maxDelta\<close> 8, score 0.35), both with pressure score and rack score unchanged.\<close>

theorem bari_range_and_monotone_witness:
  "maxDelta quiet = 0 \<and> maxDelta heated = 8 \<and>
   dpScore heated = dpScore quiet \<and> rackScore heated = rackScore quiet \<and>
   bari quiet = 0 \<and> bari heated = 7 / 20 \<and>
   bari quiet \<le> bari heated \<and> 0 \<le> bari heated \<and> bari heated \<le> 1"
proof -
  have le: "maxDelta quiet \<le> maxDelta heated"
    by (simp add: maxDelta_quiet maxDelta_heated)
  have rk: "rackScore heated = rackScore quiet"
    by (simp add: rackScore_quiet rackScore_heated)
  from bari_range_and_monotone [of heated quiet 0 8 0 0] have "0 \<le> bari heated \<and> bari heated \<le> 1"
    by blast
  moreover from bari_range_and_monotone [of quiet heated 0 8 0 0] le rk dpScore_heated
  have "bari quiet \<le> bari heated"
    by blast
  ultimately show ?thesis
    using rk by (simp add: maxDelta_quiet maxDelta_heated dpScore_heated bari_quiet bari_heated)
qed

text \<open>
  Claim C9. The risk computation does not read the rack power array: two states
  that agree on the sensor array, the pressure array and the two baselines have the
  same thermal, pressure and rack scores, the same \<open>bari\<close> and the same
  classification, whatever their rack power values (and other fields) are.
\<close>

theorem rack_power_noninterference:
  "temps s = temps s' \<and> dpArr s = dpArr s' \<and> baseline s = baseline s' \<and>
   baseDp s = baseDp s' \<longrightarrow>
     thermalScore s = thermalScore s' \<and> dpScore s = dpScore s' \<and>
     rackScore s = rackScore s' \<and> bari s = bari s' \<and> bariLabel s = bariLabel s'"
  by (simp add: bariLabel_def bari_def thermalScore_def maxDelta_def deltas_def
      dpScore_def dpDrop_def rackScore_def rackMean_def)

text \<open>The heated engine with every rack at 80 kW and with every rack at 95 kW.\<close>

theorem rack_power_noninterference_witness:
  "rackPwr (heated\<lparr>rackPwr := replicate 8 95\<rparr>) \<noteq> rackPwr heated \<and>
   bari (heated\<lparr>rackPwr := replicate 8 95\<rparr>) = 7 / 20 \<and>
   bari heated = 7 / 20 \<and>
   bariLabel (heated\<lparr>rackPwr := replicate 8 95\<rparr>) = ''ELEVATED'' \<and>
   bariLabel heated = ''ELEVATED''"
proof -
  have differ: "rackPwr (heated\<lparr>rackPwr := replicate 8 95\<rparr>) \<noteq> rackPwr heated"
    by (simp add: heated_def quiet_def)
  have label: "bariLabel heated = ''ELEVATED''"
    by (simp add: bariLabel_def bari_heated)
  from rack_power_noninterference [of heated "heated\<lparr>rackPwr := replicate 8 95\<rparr>"]
  have "bari heated = bari (heated\<lparr>rackPwr := replicate 8 95\<rparr>) \<and>
        bariLabel heated = bariLabel (heated\<lparr>rackPwr := replicate 8 95\<rparr>)"
    by simp
  with differ label show ?thesis
    by (simp add: bari_heated)
qed

end
